theory Spec2Isabelle
  imports Complex_Main
begin

section \<open>Numbers and pandas Series\<close>

text \<open>
  The sensor columns of the mashing data are float64 columns of a pandas DataFrame.
  A cell is modelled as a \<open>real option\<close>: \<open>None\<close> is NaN (a missing reading), \<open>Some x\<close>
  the number \<open>x\<close>. Arithmetic propagates NaN and every comparison with NaN is false, as
  in Python. The infinities of IEEE arithmetic are not modelled: every number is taken
  to lie within the range of float64. The segmentation adds and subtracts minutes and
  compares; its operations \<open>fadd\<close> and \<open>fsub\<close> are exact. The thermal flux is a product of
  three factors, and its operations round to float64 (below).
\<close>

type_synonym flt = "real option"

fun fadd :: "flt \<Rightarrow> flt \<Rightarrow> flt" where
  "fadd (Some x) (Some y) = Some (x + y)"
| "fadd _ _ = None"

fun fsub :: "flt \<Rightarrow> flt \<Rightarrow> flt" where
  "fsub (Some x) (Some y) = Some (x - y)"
| "fsub _ _ = None"

fun fmul :: "flt \<Rightarrow> flt \<Rightarrow> flt" where
  "fmul (Some x) (Some y) = Some (x * y)"
| "fmul _ _ = None"

text \<open>Division by a non-zero constant, the only division of the source (\<open>/ 60.0\<close>).\<close>

fun fdiv :: "flt \<Rightarrow> real \<Rightarrow> flt" where
  "fdiv (Some x) c = Some (x / c)"
| "fdiv None c = None"

fun fless :: "flt \<Rightarrow> flt \<Rightarrow> bool" where
  "fless (Some x) (Some y) = (x < y)"
| "fless _ _ = False"

fun fle :: "flt \<Rightarrow> flt \<Rightarrow> bool" where
  "fle (Some x) (Some y) = (x \<le> y)"
| "fle _ _ = False"

subsection \<open>Rounding to float64\<close>

text \<open>
  A float64 has a significand of 53 bits: a number \<open>x\<close> with \<open>2^e \<le> |x| < 2^(e+1)\<close> is
  rounded to the nearest multiple of \<open>2^(e-52)\<close>, a tie going to the even multiple; below
  \<open>2^(-1022)\<close> the spacing stays \<open>2^(-1074)\<close>. \<open>exponent_of\<close> finds \<open>e\<close> by halving or doubling,
  at most 1100 times, which covers the range of float64.
\<close>

definition pow2 :: "int \<Rightarrow> real" where
  "pow2 e = (if 0 \<le> e then 2 ^ nat e else 1 / 2 ^ nat (- e))"

fun exponent_of :: "nat \<Rightarrow> real \<Rightarrow> int" where
  "exponent_of 0 x = 0"
| "exponent_of (Suc n) x =
     (if 2 \<le> x then exponent_of n (x / 2) + 1
      else if x < 1 then exponent_of n (x * 2) - 1
      else 0)"

definition round_half_even :: "real \<Rightarrow> int" where
  "round_half_even y =
     (let f = \<lfloor>y\<rfloor>; d = y - of_int f
      in if d < 1 / 2 then f else if 1 / 2 < d then f + 1 else if even f then f else f + 1)"

definition round_to_double :: "real \<Rightarrow> real" where
  "round_to_double x =
     (if x = 0 then 0
      else (let e = max (exponent_of 1100 \<bar>x\<bar>) (- 1022);
                ulp = pow2 (e - 52)
            in of_int (round_half_even (x / ulp)) * ulp))"

text \<open>The float64 operations of the thermal flux: the exact result, rounded.\<close>

definition f64_sub :: "flt \<Rightarrow> flt \<Rightarrow> flt" where
  "f64_sub a b = map_option round_to_double (fsub a b)"

definition f64_mul :: "flt \<Rightarrow> flt \<Rightarrow> flt" where
  "f64_mul a b = map_option round_to_double (fmul a b)"

definition f64_div :: "flt \<Rightarrow> real \<Rightarrow> flt" where
  "f64_div a c = map_option round_to_double (fdiv a c)"

subsection \<open>Series\<close>

text \<open>\<open>pd.notna\<close>.\<close>

definition notna :: "flt \<Rightarrow> bool" where
  "notna x = (x \<noteq> None)"

text \<open>Python's builtin \<open>min(a, b)\<close>: the first argument unless the second is smaller.\<close>

definition py_min :: "flt \<Rightarrow> flt \<Rightarrow> flt" where
  "py_min a b = (if fless b a then b else a)"

text \<open>\<open>Series.min()\<close> and \<open>Series.max()\<close> of a column without NaN: NaN on an empty column.\<close>

fun series_min :: "real list \<Rightarrow> flt" where
  "series_min [] = None"
| "series_min (x # xs) = Some (fold min xs x)"

fun series_max :: "real list \<Rightarrow> flt" where
  "series_max [] = None"
| "series_max (x # xs) = Some (fold max xs x)"

text \<open>\<open>Series.diff()\<close>: NaN in the first row, then each value minus the one before.\<close>

fun diff_from :: "flt \<Rightarrow> flt list \<Rightarrow> flt list" where
  "diff_from p [] = []"
| "diff_from p (x # xs) = fsub x p # diff_from x xs"

fun series_diff :: "flt list \<Rightarrow> flt list" where
  "series_diff [] = []"
| "series_diff (x # xs) = None # diff_from x xs"

text \<open>\<open>Series.fillna(c)\<close>.\<close>

definition fillna :: "real \<Rightarrow> flt list \<Rightarrow> real list" where
  "fillna c xs = map (\<lambda>x. case x of None \<Rightarrow> c | Some v \<Rightarrow> v) xs"

text \<open>
  \<open>Series.idxmin()\<close>: the position of the first smallest value, NaN skipped. The frames
  built by the loaders have unique index labels, so a label is modelled by the row's
  position. \<open>None\<close> stands for the column that holds no number at all, on which the
  lookup \<open>batch_mashing.loc[min_grist_idx, 'minutes']\<close> cannot succeed.
\<close>

fun idxmin_from :: "nat \<Rightarrow> (nat \<times> real) option \<Rightarrow> flt list \<Rightarrow> (nat \<times> real) option" where
  "idxmin_from i best [] = best"
| "idxmin_from i best (None # xs) = idxmin_from (Suc i) best xs"
| "idxmin_from i None (Some v # xs) = idxmin_from (Suc i) (Some (i, v)) xs"
| "idxmin_from i (Some (j, m)) (Some v # xs) =
     idxmin_from (Suc i) (if v < m then Some (i, v) else Some (j, m)) xs"

definition idxmin :: "flt list \<Rightarrow> nat option" where
  "idxmin xs = map_option fst (idxmin_from 0 None xs)"

section \<open>Samples, batches and phases\<close>

text \<open>
  One row of a batch: \<open>minutes\<close> is the elapsed time the callers compute from the
  timestamp column, the other fields are the sensor columns the analysis reads.
\<close>

record sample =
  minutes :: real
  greast_case_weight :: flt
  sparging_mashing_water_flow :: flt
  mashing_temp :: flt
  mashing_sparging_water_temp :: flt

text \<open>A row of the working copy: the sample and its \<open>grist_flow\<close> cell.\<close>

type_synonym row = "sample \<times> real"

record phase =
  name :: string
  start :: flt
  finish :: flt

datatype py_error = IndexError | AllNaWeightError

text \<open>
  The \<open>grist_flow\<close> column:
  \<^verbatim>\<open>-batch_mashing['greast_case_weight'].diff().fillna(0)\<close>, then \<open>max(x, 0)\<close> on each cell.
\<close>

definition grist_flow :: "sample list \<Rightarrow> real list" where
  "grist_flow b =
     map (\<lambda>x. max x 0) (map uminus (fillna 0 (series_diff (map greast_case_weight b))))"

definition with_grist_flow :: "sample list \<Rightarrow> row list" where
  "with_grist_flow b = zip b (grist_flow b)"

section \<open>Segmentation: \<open>detect_phases_new\<close>\<close>

text \<open>Phase 1, Water Pre-Fill: the first row whose grist flow exceeds 0.5, else start + 5.\<close>

definition phase1_end :: "row list \<Rightarrow> flt \<Rightarrow> flt" where
  "phase1_end rows process_start =
     (let grist_starts = filter (\<lambda>r. snd r > 0.5) rows
      in if grist_starts \<noteq> [] then Some (minutes (fst (hd grist_starts)))
         else fadd process_start (Some 5))"

text \<open>
  Phase 2, Grist Addition: among the rows with \<open>minutes >= p2_start\<close>, the last one with
  grist flow above 0.5, plus 1; with no such row the time of the smallest weight of the
  whole batch; with no row at or after \<open>p2_start\<close>, \<open>p2_start + 10\<close>.
\<close>

definition phase2_end :: "row list \<Rightarrow> flt \<Rightarrow> py_error + flt" where
  "phase2_end rows p2_start =
     (let grist_data = filter (\<lambda>r. fle p2_start (Some (minutes (fst r)))) rows
      in if grist_data \<noteq> [] then
           (let grist_active = filter (\<lambda>r. snd r > 0.5) grist_data
            in if grist_active \<noteq> [] then
                 Inr (fadd (Some (minutes (fst (last grist_active)))) (Some 1))
               else
                 (case idxmin (map (\<lambda>r. greast_case_weight (fst r)) rows) of
                    None \<Rightarrow> Inl AllNaWeightError
                  | Some i \<Rightarrow> Inr (Some (minutes (fst (rows ! i))))))
         else Inr (fadd p2_start (Some 10)))"

text \<open>Phase 3, Resting: the first row strictly after \<open>p3_start\<close> with water flow above 200.\<close>

definition phase3_end :: "sample list \<Rightarrow> flt \<Rightarrow> flt \<Rightarrow> flt" where
  "phase3_end b p3_start process_end =
     (let post_grist = filter (\<lambda>s. fless p3_start (Some (minutes s))) b;
          sparge_starts = filter (\<lambda>s. fless (Some 200) (sparging_mashing_water_flow s)) post_grist
      in if sparge_starts \<noteq> [] then Some (minutes (hd sparge_starts))
         else py_min (fadd p3_start (Some 60)) process_end)"

text \<open>
  Phase 4, Sparge: among the high-flow rows at or after \<open>p4_start\<close>, the first one more
  than 3 minutes after its predecessor, minus 1; without such a gap the first low-flow
  row (below 50) after the first high-flow row; else the last high-flow row plus 2.
\<close>

definition phase4_end :: "sample list \<Rightarrow> flt \<Rightarrow> flt \<Rightarrow> flt" where
  "phase4_end b p4_start process_end =
     (let sparge_data = filter (\<lambda>s. fle p4_start (Some (minutes s))) b;
          high_flow_data = filter (\<lambda>s. fless (Some 200) (sparging_mashing_water_flow s)) sparge_data
      in if high_flow_data \<noteq> [] then
           (let gap = series_diff (map (\<lambda>s. Some (minutes s)) high_flow_data);
                gaps = map fst (filter (\<lambda>(s, g). fless (Some 3) g) (zip high_flow_data gap))
            in if gaps \<noteq> [] then fsub (Some (minutes (hd gaps))) (Some 1)
               else
                 (let flow_data = filter (\<lambda>s. minutes s > minutes (hd high_flow_data)) sparge_data;
                      low_flow = filter (\<lambda>s. fless (sparging_mashing_water_flow s) (Some 50)) flow_data
                  in if low_flow \<noteq> [] then Some (minutes (hd low_flow))
                     else fadd (Some (minutes (last high_flow_data))) (Some 2)))
         else py_min (fadd p4_start (Some 15)) process_end)"

text \<open>Phase 5, First Wort: the first high-flow row strictly after \<open>p5_start\<close>, minus 1.\<close>

definition phase5_end :: "sample list \<Rightarrow> flt \<Rightarrow> flt \<Rightarrow> flt" where
  "phase5_end b p5_start process_end =
     (let post_sparge = filter (\<lambda>s. fless p5_start (Some (minutes s))) b;
          second_sparge = filter (\<lambda>s. fless (Some 200) (sparging_mashing_water_flow s)) post_sparge
      in if second_sparge \<noteq> [] then fsub (Some (minutes (hd second_sparge))) (Some 1)
         else py_min (fadd p5_start (Some 30)) process_end)"

text \<open>
  Phase 6, Second Sparge: after the last high-flow row at or after \<open>p6_start\<close>, the first
  low-flow row of the whole batch; else that last high-flow row plus 5.
\<close>

definition phase6_end :: "sample list \<Rightarrow> flt \<Rightarrow> flt \<Rightarrow> flt" where
  "phase6_end b p6_start process_end =
     (let post_p5 = filter (\<lambda>s. fle p6_start (Some (minutes s))) b;
          high_flow_p6 = filter (\<lambda>s. fless (Some 200) (sparging_mashing_water_flow s)) post_p5
      in if high_flow_p6 \<noteq> [] then
           (let last_high = minutes (last high_flow_p6);
                after_sparge = filter (\<lambda>s. minutes s > last_high) b;
                low_flow = filter (\<lambda>s. fless (sparging_mashing_water_flow s) (Some 50)) after_sparge
            in if low_flow \<noteq> [] then Some (minutes (hd low_flow))
               else Some (last_high + 5))
         else py_min (fadd p6_start (Some 20)) process_end)"

text \<open>
  The statements of \<open>detect_phases_new\<close> from \<open>PHASE 1\<close> on. They read the first and the
  last elapsed time, the working copy with its \<open>grist_flow\<close> column (\<open>rows\<close>) and the sensor
  columns of that copy. The dictionary \<open>phases\<close> is filled with the keys 1 to 7 in this
  order; it is modelled as the association list of its items.
\<close>

definition phases_of_rows ::
  "flt \<Rightarrow> flt \<Rightarrow> row list \<Rightarrow> sample list \<Rightarrow> py_error + (nat \<times> phase) list" where
  "phases_of_rows process_start process_end rows batch_mashing =
     (let p1_start = process_start;
          p1_end = phase1_end rows process_start;
          p2_start = p1_end
      in case phase2_end rows p2_start of
           Inl e \<Rightarrow> Inl e
         | Inr p2_end \<Rightarrow>
            (let p3_start = p2_end;
                 p3_end = phase3_end batch_mashing p3_start process_end;
                 p4_start = p3_end;
                 p4_end = phase4_end batch_mashing p4_start process_end;
                 p5_start = p4_end;
                 p5_end = phase5_end batch_mashing p5_start process_end;
                 p6_start = p5_end;
                 p6_end = phase6_end batch_mashing p6_start process_end;
                 p7_start = p6_end;
                 p7_end = process_end
             in Inr [(1, \<lparr>name = ''Water Pre-Fill'', start = p1_start, finish = p1_end\<rparr>),
                     (2, \<lparr>name = ''Grist Addition'', start = p2_start, finish = p2_end\<rparr>),
                     (3, \<lparr>name = ''Resting'', start = p3_start, finish = p3_end\<rparr>),
                     (4, \<lparr>name = ''Sparge'', start = p4_start, finish = p4_end\<rparr>),
                     (5, \<lparr>name = ''First Wort'', start = p5_start, finish = p5_end\<rparr>),
                     (6, \<lparr>name = ''Second Sparge'', start = p6_start, finish = p6_end\<rparr>),
                     (7, \<lparr>name = ''Grain Disposal'', start = p7_start, finish = p7_end\<rparr>)]))"

text \<open>
  The whole function on the rows of its argument: the first and last elapsed time are
  read, the \<open>grist_flow\<close> column is added to a copy, and the phases are computed.
\<close>

definition detect_phases_new :: "sample list \<Rightarrow> py_error + (nat \<times> phase) list" where
  "detect_phases_new batch_mashing =
     (let process_start = series_min (map minutes batch_mashing);
          process_end = series_max (map minutes batch_mashing);
          rows = with_grist_flow batch_mashing
      in phases_of_rows process_start process_end rows batch_mashing)"

section \<open>Segmentation: the older \<open>detect_phases\<close>\<close>

text \<open>
  The variant of \<open>v3.py\<close> with the thresholds 10 (grist flow) and 300 (water flow). Its
  \<open>grist_flow\<close> column is clipped with \<open>clip(lower=0)\<close>, which on a column without NaN is
  \<open>max(x, 0)\<close> again. \<open>batch_mashing['greast_case_weight'].iloc[0]\<close> raises on an empty
  batch, and phase 2 always ends at the time of the smallest weight.
\<close>

definition detect_phases :: "sample list \<Rightarrow> py_error + (nat \<times> phase) list" where
  "detect_phases batch_mashing =
     (let process_start = series_min (map minutes batch_mashing);
          process_end = series_max (map minutes batch_mashing);
          rows = with_grist_flow batch_mashing;
          p1_start = process_start;
          grist_starts = filter (\<lambda>r. snd r > 10) rows;
          p1_end = (if grist_starts \<noteq> [] then Some (minutes (fst (hd grist_starts)))
                    else fadd process_start (Some 5));
          p2_start = p1_end
      in if batch_mashing = [] then Inl IndexError
         else case idxmin (map greast_case_weight batch_mashing) of
           None \<Rightarrow> Inl AllNaWeightError
         | Some min_grist_idx \<Rightarrow>
            (let p2_end = Some (minutes (batch_mashing ! min_grist_idx));
                 post_grist = filter (\<lambda>s. fless p2_end (Some (minutes s))) batch_mashing;
                 p3_start = p2_end;
                 high_flow = filter (\<lambda>s. fless (Some 300) (sparging_mashing_water_flow s)) post_grist;
                 p3_end = (if high_flow \<noteq> [] then Some (minutes (hd high_flow))
                           else fadd p3_start (Some 45));
                 p4_start = p3_end;
                 sparge_data = filter (\<lambda>s. fle p4_start (Some (minutes s))) batch_mashing;
                 high_flow_data =
                   filter (\<lambda>s. fless (Some 300) (sparging_mashing_water_flow s)) sparge_data;
                 p4_end =
                   (if high_flow_data \<noteq> [] then
                      (let gap = series_diff (map (\<lambda>s. Some (minutes s)) high_flow_data);
                           gaps = map fst (filter (\<lambda>(s, g). fless (Some 5) g)
                                             (zip high_flow_data gap))
                       in if gaps \<noteq> [] then fsub (Some (minutes (hd gaps))) (Some 2)
                          else fadd (Some (minutes (last high_flow_data))) (Some 2))
                    else fadd p4_start (Some 20));
                 p5_start = p4_end;
                 post_sparge1 = filter (\<lambda>s. fless p5_start (Some (minutes s))) batch_mashing;
                 second_sparge =
                   filter (\<lambda>s. fless (Some 300) (sparging_mashing_water_flow s)) post_sparge1;
                 p5_end = (if second_sparge \<noteq> [] then
                             fsub (Some (minutes (hd second_sparge))) (Some 2)
                           else py_min (fadd p5_start (Some 40)) process_end);
                 p6_start = p5_end;
                 post_p5 = filter (\<lambda>s. fle p6_start (Some (minutes s))) batch_mashing;
                 high_flow_p6 =
                   filter (\<lambda>s. fless (Some 300) (sparging_mashing_water_flow s)) post_p5;
                 p6_end = (if high_flow_p6 \<noteq> [] then
                             fadd (Some (minutes (last high_flow_p6))) (Some 5)
                           else py_min (fadd p6_start (Some 30)) process_end);
                 p7_start = p6_end;
                 p7_end = process_end
             in Inr [(1, \<lparr>name = ''Water Pre-Fill'', start = p1_start, finish = p1_end\<rparr>),
                     (2, \<lparr>name = ''Grist Addition'', start = p2_start, finish = p2_end\<rparr>),
                     (3, \<lparr>name = ''Resting'', start = p3_start, finish = p3_end\<rparr>),
                     (4, \<lparr>name = ''Sparge'', start = p4_start, finish = p4_end\<rparr>),
                     (5, \<lparr>name = ''First Wort'', start = p5_start, finish = p5_end\<rparr>),
                     (6, \<lparr>name = ''Second Sparge'', start = p6_start, finish = p6_end\<rparr>),
                     (7, \<lparr>name = ''Grain Disposal'', start = p7_start, finish = p7_end\<rparr>)]))"

section \<open>Thermal flux: \<open>calculate_heat_available\<close>\<close>

text \<open>
  The body of the loop \<open>for i in range(1, len(data))\<close>: it reads the water temperature and
  the water flow of row \<open>i - 1\<close> and the mash temperature of row \<open>i\<close> to compute \<open>Q\<close>, and
  stores \<open>Q\<close> into cell \<open>i\<close> of the \<open>heat_available\<close> column. The literal \<open>4.18\<close> is the
  float64 nearest to 4.18, and each division, product and difference is rounded.
\<close>

definition heat_Q :: "sample list \<Rightarrow> nat \<Rightarrow> flt" where
  "heat_Q data i =
     (let cp_water = Some (round_to_double 4.18);
          rho_water = Some 1.0;
          T_initial = mashing_sparging_water_temp (data ! (i - 1));
          T_final = mashing_temp (data ! i);
          flow_prev = f64_div (sparging_mashing_water_flow (data ! (i - 1))) 60.0;
          mass_prev = f64_mul rho_water flow_prev;
          delta_T = (if notna T_initial \<and> notna T_final then f64_sub T_final T_initial else Some 0);
          Q = f64_mul (f64_mul mass_prev cp_water) delta_T
      in Q)"

definition heat_step :: "sample list \<Rightarrow> nat \<Rightarrow> flt list \<Rightarrow> flt list" where
  "heat_step data i heat_available = heat_available[i := heat_Q data i]"

text \<open>
  The column starts as \<open>0.0\<close> in every row. The index labels being unique,
  \<open>data.loc[data.index[i], 'heat_available'] = Q\<close> writes the cell of row \<open>i\<close> only. The
  result is the \<open>heat_available\<close> column of the returned frame, whose other columns are
  those of \<open>data\<close>.
\<close>

definition calculate_heat_available :: "sample list \<Rightarrow> flt list" where
  "calculate_heat_available data =
     fold (heat_step data) [1..<length data] (replicate (length data) (Some 0.0))"

section \<open>Example batches\<close>

definition mk_sample :: "real \<Rightarrow> flt \<Rightarrow> flt \<Rightarrow> flt \<Rightarrow> flt \<Rightarrow> sample" where
  "mk_sample t w f mt wt =
     \<lparr>minutes = t, greast_case_weight = w, sparging_mashing_water_flow = f,
      mashing_temp = mt, mashing_sparging_water_temp = wt\<rparr>"

text \<open>A batch with grist addition at minute 1 and one sparge from minute 2 to minute 8.\<close>

definition sparge_batch :: "sample list" where
  "sparge_batch =
     [mk_sample 0 (Some 100) (Some 0) (Some 60) (Some 20),
      mk_sample 1 (Some 95) (Some 0) (Some 61) (Some 20),
      mk_sample 2 (Some 95) (Some 300) (Some 62) (Some 20),
      mk_sample 3 (Some 95) (Some 300) (Some 65) (Some 20),
      mk_sample 8 (Some 95) (Some 300) (Some 65) None,
      mk_sample 9 (Some 95) (Some 0) None (Some 20),
      mk_sample 20 (Some 95) (Some 0) (Some 64) (Some 20)]"

text \<open>A batch without any grist movement or water flow.\<close>

definition idle_batch :: "sample list" where
  "idle_batch =
     [mk_sample 0 (Some 100) (Some 0) (Some 60) (Some 20),
      mk_sample 10 (Some 100) (Some 0) (Some 60) (Some 20)]"

text \<open>A batch of a single sample.\<close>

definition single_batch :: "sample list" where
  "single_batch = [mk_sample 0 (Some 100) (Some 0) (Some 60) (Some 20)]"

text \<open>Two samples, the first without water flow and water temperature readings.\<close>

definition nan_flow_batch :: "sample list" where
  "nan_flow_batch =
     [mk_sample 0 (Some 100) None (Some 60) None,
      mk_sample 1 (Some 100) (Some 0) (Some 61) (Some 20)]"

text \<open>A batch whose sparge is interrupted between minute 10 and minute 14.\<close>

definition gap_batch :: "sample list" where
  "gap_batch =
     [mk_sample 0 (Some 100) (Some 0) (Some 60) (Some 20),
      mk_sample 1 (Some 95) (Some 0) (Some 61) (Some 20),
      mk_sample 10 (Some 95) (Some 300) (Some 62) (Some 20),
      mk_sample 14 (Some 95) (Some 300) (Some 65) (Some 20),
      mk_sample 20 (Some 95) (Some 0) (Some 64) (Some 20)]"

text \<open>The same batch with the water flow of the sample at minute 10 set to 0.\<close>

definition gap_batch_alt :: "sample list" where
  "gap_batch_alt = gap_batch[2 := (gap_batch ! 2)\<lparr>sparging_mashing_water_flow := Some 0\<rparr>]"

text \<open>Two samples five minutes apart, none with a weight reading.\<close>

definition nan_weight_batch :: "sample list" where
  "nan_weight_batch =
     [mk_sample 0 None (Some 0) (Some 60) (Some 20),
      mk_sample 5 None (Some 0) (Some 60) (Some 20)]"

text \<open>Two samples three minutes apart, none with a weight reading.\<close>

definition short_nan_weight_batch :: "sample list" where
  "short_nan_weight_batch =
     [mk_sample 0 None (Some 0) (Some 60) (Some 20),
      mk_sample 3 None (Some 0) (Some 60) (Some 20)]"



section \<open>Frames as objects of a store\<close>

text \<open>
  To state what a call leaves unchanged, the DataFrame objects are put into a store: a
  list of frames, an object being addressed by its position. A frame holds its rows and
  the columns that the analysis adds (\<open>None\<close>: the frame has no such column). \<open>.copy()\<close>
  creates a new object at the end of the store; a column assignment overwrites the
  column of the object it addresses. The selections \<open>df[mask]\<close>, which are never written
  to, stay local values of the functions.
\<close>

record frame =
  samples :: "sample list"
  grist_flow_column :: "real list option"
  gap_column :: "flt list option"
  heat_available_column :: "flt list option"

type_synonym store = "frame list"

definition new_frame :: "frame \<Rightarrow> store \<Rightarrow> nat \<times> store" where
  "new_frame f h = (length h, h @ [f])"

definition df_copy :: "nat \<Rightarrow> store \<Rightarrow> nat \<times> store" where
  "df_copy r h = new_frame (h ! r) h"

text \<open>
  The writes of phase 4 of \<open>detect_phases_new\<close>: when high-flow rows exist,
  \<open>high_flow_data = high_flow_data.copy()\<close> and \<open>high_flow_data['gap'] = ...\<close>.
\<close>

definition phase4_gap_store :: "row list \<Rightarrow> flt \<Rightarrow> store \<Rightarrow> store" where
  "phase4_gap_store rows p4_start h =
     (let sparge_data = filter (\<lambda>r. fle p4_start (Some (minutes (fst r)))) rows;
          high_flow_data =
            filter (\<lambda>r. fless (Some 200) (sparging_mashing_water_flow (fst r))) sparge_data
      in if high_flow_data \<noteq> [] then
           (let (c, h1) = new_frame \<lparr>samples = map fst high_flow_data,
                                     grist_flow_column = Some (map snd high_flow_data),
                                     gap_column = None, heat_available_column = None\<rparr> h
            in h1[c := (h1 ! c)\<lparr>gap_column :=
                        Some (series_diff (map (\<lambda>s. Some (minutes s)) (samples (h1 ! c))))\<rparr>])
         else h)"

text \<open>
  \<open>detect_phases_new\<close> called with the frame at address \<open>r\<close>: the result and the store
  after the call. The first and last elapsed time are read from the argument, then
  \<open>batch_mashing = batch_mashing.copy()\<close> rebinds the name to a new object, which receives
  the \<open>grist_flow\<close> column in two assignments; the phases are computed from that object.
\<close>

definition detect_phases_new_st ::
  "nat \<Rightarrow> store \<Rightarrow> (py_error + (nat \<times> phase) list) \<times> store" where
  "detect_phases_new_st r h =
     (let process_start = series_min (map minutes (samples (h ! r)));
          process_end = series_max (map minutes (samples (h ! r)));
          (batch_mashing, h1) = df_copy r h;
          h2 = h1[batch_mashing := (h1 ! batch_mashing)\<lparr>grist_flow_column :=
                 Some (map uminus (fillna 0 (series_diff
                   (map greast_case_weight (samples (h1 ! batch_mashing))))))\<rparr>];
          h3 = h2[batch_mashing := (h2 ! batch_mashing)\<lparr>grist_flow_column :=
                 map_option (map (\<lambda>x. max x 0)) (grist_flow_column (h2 ! batch_mashing))\<rparr>];
          b = samples (h3 ! batch_mashing);
          rows = zip b (case grist_flow_column (h3 ! batch_mashing) of None \<Rightarrow> [] | Some g \<Rightarrow> g);
          phases = phases_of_rows process_start process_end rows b
      in (phases,
          case phases of Inl e \<Rightarrow> h3
          | Inr ps \<Rightarrow> phase4_gap_store rows (start (snd (ps ! 3))) h3))"

text \<open>
  \<open>calculate_heat_available\<close> called with the frame at address \<open>r\<close>: the address of the
  returned frame and the store after the call. \<open>data = data.copy()\<close>, then the column
  \<open>heat_available\<close> of the copy is set to 0.0 and overwritten cell by cell in the loop.
\<close>

definition heat_store_step :: "nat \<Rightarrow> nat \<Rightarrow> store \<Rightarrow> store" where
  "heat_store_step data i h =
     h[data := (h ! data)\<lparr>heat_available_column :=
         map_option (heat_step (samples (h ! data)) i) (heat_available_column (h ! data))\<rparr>]"

definition calculate_heat_available_st :: "nat \<Rightarrow> store \<Rightarrow> nat \<times> store" where
  "calculate_heat_available_st r h =
     (let (data, h1) = df_copy r h;
          h2 = h1[data := (h1 ! data)\<lparr>heat_available_column :=
                 Some (replicate (length (samples (h1 ! data))) (Some 0.0))\<rparr>];
          h3 = fold (heat_store_step data) [1..<length (samples (h2 ! data))] h2
      in (data, h3))"

text \<open>A store that holds one frame, the batch with one sparge.\<close>

definition sparge_store :: store where
  "sparge_store = [\<lparr>samples = sparge_batch, grist_flow_column = None, gap_column = None,
                    heat_available_column = None\<rparr>]"

section \<open>Properties\<close>

subsection \<open>Series operations\<close>

lemma fold_min_least: "\<forall>y\<in>set xs. (x::real) \<le> y \<Longrightarrow> fold min xs x = x"
  by (induction xs) (auto simp: min_def)

lemma fold_max_sorted: "sorted (x # xs) \<Longrightarrow> fold max xs (x::real) = last (x # xs)"
proof (induction xs arbitrary: x)
  case Nil
  then show ?case by simp
next
  case (Cons y ys)
  then have "max y x = y" by simp
  with Cons show ?case by simp
qed

lemma series_min_sorted:
  "xs \<noteq> [] \<Longrightarrow> sorted xs \<Longrightarrow> series_min xs = Some (hd xs)"
  by (cases xs) (auto simp: fold_min_least)

lemma series_max_sorted:
  "xs \<noteq> [] \<Longrightarrow> sorted xs \<Longrightarrow> series_max xs = Some (last xs)"
  by (cases xs) (simp_all only: series_max.simps fold_max_sorted, simp)

lemma length_diff_from: "length (diff_from p xs) = length xs"
  by (induction xs arbitrary: p) auto

lemma length_series_diff: "length (series_diff xs) = length xs"
  by (cases xs) (auto simp: length_diff_from)

lemma length_grist_flow: "length (grist_flow b) = length b"
  by (simp add: grist_flow_def fillna_def length_series_diff)

lemma with_grist_flow_fst: "map fst (with_grist_flow b) = b"
  by (simp add: with_grist_flow_def length_grist_flow)

lemma idxmin_from_Some:
  "best \<noteq> None \<or> (\<exists>x\<in>set xs. x \<noteq> None) \<Longrightarrow> idxmin_from i best xs \<noteq> None"
  by (induction i best xs rule: idxmin_from.induct) auto

lemma idxmin_from_bound:
  "idxmin_from i best xs = Some (j, m) \<Longrightarrow> (\<forall>k v. best = Some (k, v) \<longrightarrow> k < i + length xs)
     \<Longrightarrow> j < i + length xs"
  by (induction i best xs arbitrary: j m rule: idxmin_from.induct) (auto split: if_splits)

lemma idxmin_Some:
  assumes "\<exists>x\<in>set xs. x \<noteq> None"
  shows "\<exists>i. idxmin xs = Some i \<and> i < length xs"
proof -
  from assms obtain j m where jm: "idxmin_from 0 None xs = Some (j, m)"
    using idxmin_from_Some [of None xs 0] by auto
  then have "j < length xs" using idxmin_from_bound [of 0 None xs j m] by simp
  with jm show ?thesis by (simp add: idxmin_def)
qed

lemma drop_eq_Cons:
  assumes "drop i ys = x # xs"
  shows "i < length ys" and "ys ! i = x" and "drop (Suc i) ys = xs"
proof -
  show l: "i < length ys" using assms by (cases "i < length ys") auto
  from l have "drop i ys = ys ! i # drop (Suc i) ys" by (simp add: Cons_nth_drop_Suc)
  with assms show "ys ! i = x" and "drop (Suc i) ys = xs" by auto
qed

lemma idxmin_from_least:
  assumes "idxmin_from i best xs = Some (j, m)"
    and "\<forall>k v. best = Some (k, v) \<longrightarrow> k < i \<and> ys ! k = Some v \<and> (\<forall>w. Some w \<in> set (take i ys) \<longrightarrow> v \<le> w)"
    and "best = None \<longrightarrow> (\<forall>w. Some w \<notin> set (take i ys))"
    and "drop i ys = xs"
  shows "ys ! j = Some m \<and> (\<forall>w. Some w \<in> set ys \<longrightarrow> m \<le> w)"
  using assms
proof (induction i best xs rule: idxmin_from.induct)
  case (1 i best)
  then show ?case by (cases best) auto
next
  case (2 i best xs)
  from 2(5) have i: "i < length ys" "ys ! i = None" "drop (Suc i) ys = xs"
    by (rule drop_eq_Cons)+
  have t: "take (Suc i) ys = take i ys @ [None]" using i by (simp add: take_Suc_conv_app_nth)
  show ?case
  proof (rule 2(1))
    show "idxmin_from (Suc i) best xs = Some (j, m)" using 2(2) by simp
    show "\<forall>k v. best = Some (k, v) \<longrightarrow> k < Suc i \<and> ys ! k = Some v \<and> (\<forall>w. Some w \<in> set (take (Suc i) ys) \<longrightarrow> v \<le> w)"
      using 2(3) t by auto
    show "best = None \<longrightarrow> (\<forall>w. Some w \<notin> set (take (Suc i) ys))" using 2(4) t by auto
    show "drop (Suc i) ys = xs" by (rule i(3))
  qed
next
  case (3 i v xs)
  from 3(5) have i: "i < length ys" "ys ! i = Some v" "drop (Suc i) ys = xs"
    by (rule drop_eq_Cons)+
  have t: "take (Suc i) ys = take i ys @ [Some v]" using i by (simp add: take_Suc_conv_app_nth)
  show ?case
  proof (rule 3(1))
    show "idxmin_from (Suc i) (Some (i, v)) xs = Some (j, m)" using 3(2) by simp
    show "\<forall>k va. Some (i, v) = Some (k, va) \<longrightarrow> k < Suc i \<and> ys ! k = Some va \<and> (\<forall>w. Some w \<in> set (take (Suc i) ys) \<longrightarrow> va \<le> w)"
      using 3(4) i t by auto
    show "Some (i, v) = None \<longrightarrow> (\<forall>w. Some w \<notin> set (take (Suc i) ys))" by simp
    show "drop (Suc i) ys = xs" by (rule i(3))
  qed
next
  case (4 i k m' v xs)
  from 4(5) have i: "i < length ys" "ys ! i = Some v" "drop (Suc i) ys = xs"
    by (rule drop_eq_Cons)+
  have t: "take (Suc i) ys = take i ys @ [Some v]" using i by (simp add: take_Suc_conv_app_nth)
  let ?best = "if v < m' then Some (i, v) else Some (k, m')"
  show ?case
  proof (rule 4(1))
    show "idxmin_from (Suc i) ?best xs = Some (j, m)" using 4(2) by simp
    show "\<forall>k' va. ?best = Some (k', va) \<longrightarrow> k' < Suc i \<and> ys ! k' = Some va \<and> (\<forall>w. Some w \<in> set (take (Suc i) ys) \<longrightarrow> va \<le> w)"
      using 4(3) i t by (fastforce split: if_splits)
    show "?best = None \<longrightarrow> (\<forall>w. Some w \<notin> set (take (Suc i) ys))" by simp
    show "drop (Suc i) ys = xs" by (rule i(3))
  qed
qed

text \<open>\<open>idxmin\<close> returns a position that holds a number, and no number of the column is smaller.\<close>

lemma idxmin_least:
  "idxmin xs = Some j \<Longrightarrow> \<exists>m. xs ! j = Some m \<and> (\<forall>w. Some w \<in> set xs \<longrightarrow> m \<le> w)"
  using idxmin_from_least [of 0 None xs j _ xs] by (auto simp: idxmin_def)

subsection \<open>Phase 2 returns\<close>

lemma phase2_end_ok:
  assumes "\<exists>r\<in>set rows. greast_case_weight (fst r) \<noteq> None"
  shows "\<exists>e. phase2_end rows t = Inr e"
proof -
  have "\<exists>x\<in>set (map (\<lambda>r. greast_case_weight (fst r)) rows). x \<noteq> None"
    using assms by auto
  from idxmin_Some [OF this] show ?thesis
    by (auto simp: phase2_end_def Let_def)
qed

lemma with_grist_flow_weight:
  assumes "\<exists>s\<in>set b. greast_case_weight s \<noteq> None"
  shows "\<exists>r\<in>set (with_grist_flow b). greast_case_weight (fst r) \<noteq> None"
proof -
  from assms obtain s where s: "s \<in> set b" "greast_case_weight s \<noteq> None" by blast
  from s(1) have "s \<in> fst ` set (with_grist_flow b)"
    using with_grist_flow_fst [of b] by (metis list.set_map)
  with s(2) show ?thesis by auto
qed

lemma less_six: "i < (6::nat) \<Longrightarrow> i = 0 \<or> i = 1 \<or> i = 2 \<or> i = 3 \<or> i = 4 \<or> i = 5"
  by arith

subsection \<open>Flow derivation\<close>

lemma diff_from_nth:
  "i < length xs \<Longrightarrow> diff_from p xs ! i = fsub (xs ! i) ((p # xs) ! i)"
proof (induction xs arbitrary: p i)
  case Nil
  then show ?case by simp
next
  case (Cons x xs)
  then show ?case by (cases i) auto
qed

lemma series_diff_nth:
  "0 < i \<Longrightarrow> i < length xs \<Longrightarrow> series_diff xs ! i = fsub (xs ! i) (xs ! (i - 1))"
  by (cases xs; cases i) (auto simp: diff_from_nth)

lemma series_diff_map_nth:
  assumes "0 < i" "i < length b"
  shows "series_diff (map f b) ! i = fsub (f (b ! i)) (f (b ! (i - 1)))"
proof -
  from assms have "i - 1 < length b" by simp
  with assms show ?thesis by (simp add: series_diff_nth del: One_nat_def)
qed

lemma grist_flow_nth:
  assumes "i < length b"
  shows "grist_flow b ! i =
      max (- (case series_diff (map greast_case_weight b) ! i of None \<Rightarrow> 0 | Some v \<Rightarrow> v)) 0"
  using assms by (simp add: grist_flow_def fillna_def length_series_diff)

text \<open>
  C5. The first cell of the \<open>grist_flow\<close> column is 0; every later cell is
  \<open>max(0, -(weight[i] - weight[i-1]))\<close>, where a difference that involves a missing
  weight counts as 0 (\<open>fillna(0)\<close>); and every cell is non-negative, whatever the weights.
\<close>

theorem grist_flow_formula:
  "(b \<noteq> [] \<longrightarrow> grist_flow b ! 0 = 0)
   \<and> (\<forall>i. 0 < i \<and> i < length b \<longrightarrow>
        grist_flow b ! i =
          (case (greast_case_weight (b ! i), greast_case_weight (b ! (i - 1))) of
             (Some w, Some w_prev) \<Rightarrow> max 0 (- (w - w_prev))
           | _ \<Rightarrow> 0))
   \<and> (\<forall>i < length b. 0 \<le> grist_flow b ! i)"
proof (intro conjI allI impI)
  assume "b \<noteq> []"
  then show "grist_flow b ! 0 = 0"
    by (cases b) (simp_all add: grist_flow_def fillna_def)
next
  fix i assume i: "0 < i \<and> i < length b"
  then have "series_diff (map greast_case_weight b) ! i
      = fsub (greast_case_weight (b ! i)) (greast_case_weight (b ! (i - 1)))"
    by (simp add: series_diff_map_nth del: One_nat_def)
  with i show "grist_flow b ! i =
          (case (greast_case_weight (b ! i), greast_case_weight (b ! (i - 1))) of
             (Some w, Some w_prev) \<Rightarrow> max 0 (- (w - w_prev))
           | _ \<Rightarrow> 0)"
    by (cases "greast_case_weight (b ! i)"; cases "greast_case_weight (b ! (i - 1))")
       (simp_all add: grist_flow_nth max.commute)
next
  fix i assume "i < length b"
  then show "0 \<le> grist_flow b ! i" by (simp add: grist_flow_nth)
qed

theorem grist_flow_formula_witness:
  "grist_flow sparge_batch ! 0 = 0 \<and> grist_flow sparge_batch ! 1 = 5
   \<and> 0 \<le> grist_flow sparge_batch ! 2"
proof -
  have l: "length sparge_batch = 7" "sparge_batch \<noteq> []" by (simp_all add: sparge_batch_def)
  have w: "greast_case_weight (sparge_batch ! 1) = Some 95"
       "greast_case_weight (sparge_batch ! 0) = Some 100"
    by (simp_all add: sparge_batch_def mk_sample_def)
  note f = grist_flow_formula [of sparge_batch]
  from f l have a: "grist_flow sparge_batch ! 0 = 0" by blast
  from f [THEN conjunct2, THEN conjunct1, rule_format, of 1] l w
  have b: "grist_flow sparge_batch ! 1 = 5" by simp
  from f [THEN conjunct2, THEN conjunct2, rule_format, of 2] l
  have c: "0 \<le> grist_flow sparge_batch ! 2" by simp
  from a b c show ?thesis by simp
qed

subsection \<open>Segmentation returns seven contiguous phases\<close>

lemma grist_flow_no_weight:
  assumes "\<forall>s\<in>set b. greast_case_weight s = None"
  shows "\<forall>g\<in>set (grist_flow b). g = 0"
proof -
  have "grist_flow b ! i = 0" if i: "i < length b" for i
  proof (cases "i = 0")
    case True
    with i show ?thesis by (cases b) (simp_all add: grist_flow_def fillna_def)
  next
    case False
    with i have "series_diff (map greast_case_weight b) ! i
        = fsub (greast_case_weight (b ! i)) (greast_case_weight (b ! (i - 1)))"
      by (simp add: series_diff_map_nth del: One_nat_def)
    moreover have "greast_case_weight (b ! i) = None" using assms i by simp
    ultimately show ?thesis using i by (simp add: grist_flow_nth)
  qed
  then show ?thesis by (auto simp: in_set_conv_nth length_grist_flow)
qed

lemma phase2_end_short:
  assumes zero: "\<forall>r\<in>set rows. snd r = (0::real)"
    and short: "\<forall>r\<in>set rows. minutes (fst r) < m + 5"
  shows "phase2_end rows (phase1_end rows (Some m)) = Inr (Some (m + 15))"
proof -
  have "filter (\<lambda>r. snd r > 0.5) rows = []" using zero by (auto simp: filter_empty_conv)
  then have p1: "phase1_end rows (Some m) = Some (m + 5)"
    unfolding phase1_end_def Let_def by simp
  have "filter (\<lambda>r. fle (Some (m + 5)) (Some (minutes (fst r)))) rows = []"
    using short by (auto simp: filter_empty_conv)
  then show ?thesis unfolding p1 phase2_end_def Let_def by simp
qed

lemma with_grist_flow_set:
  "r \<in> set (with_grist_flow b) \<Longrightarrow> fst r \<in> set b \<and> snd r \<in> set (grist_flow b)"
  unfolding with_grist_flow_def by (cases r) (auto dest: set_zip_leftD set_zip_rightD)

text \<open>
  C1 as stated fails: on a non-empty, sorted batch without any weight reading and with a
  sample 5 minutes after the first, no grist flow is found, phase 2 falls back to the
  row of the smallest weight, and that lookup raises.
\<close>

theorem seven_phases_counterexample:
  "nan_weight_batch \<noteq> [] \<and> sorted (map minutes nan_weight_batch)
   \<and> detect_phases_new nan_weight_batch = Inl AllNaWeightError"
  by code_simp

text \<open>
  C1, amended. For a non-empty batch, sorted by time as the callers pass it, that carries
  at least one weight reading or whose samples all lie less than 5 minutes after the
  first, \<open>detect_phases_new\<close> returns the seven phases with the keys 1 to 7 in order; each
  phase ends where the next one starts, phase 1 starts at the elapsed time of the first
  sample (0 by the callers' computation of \<open>minutes\<close>) and phase 7 ends at the elapsed time
  of the last sample.
\<close>

theorem detect_phases_new_seven_contiguous:
  assumes "batch \<noteq> []" and "sorted (map minutes batch)"
    and "(\<exists>s\<in>set batch. greast_case_weight s \<noteq> None)
         \<or> (\<forall>s\<in>set batch. minutes s < minutes (hd batch) + 5)"
  shows "\<exists>ps. detect_phases_new batch = Inr ps \<and> map fst ps = [1, 2, 3, 4, 5, 6, 7]
           \<and> (\<forall>i<6. finish (snd (ps ! i)) = start (snd (ps ! Suc i)))
           \<and> start (snd (ps ! 0)) = Some (minutes (hd batch))
           \<and> finish (snd (ps ! 6)) = Some (minutes (last batch))"
proof -
  have smin: "series_min (map minutes batch) = Some (minutes (hd batch))"
    using assms(1,2) by (simp add: series_min_sorted hd_map)
  have smax: "series_max (map minutes batch) = Some (minutes (last batch))"
    using assms(1,2) by (simp add: series_max_sorted last_map)
  have "\<exists>e. phase2_end (with_grist_flow batch)
      (phase1_end (with_grist_flow batch) (Some (minutes (hd batch)))) = Inr e"
  proof (cases "\<exists>s\<in>set batch. greast_case_weight s \<noteq> None")
    case True
    then show ?thesis using phase2_end_ok [OF with_grist_flow_weight] by blast
  next
    case False
    then have none: "\<forall>s\<in>set batch. greast_case_weight s = None" by blast
    from assms(3) False have short: "\<forall>s\<in>set batch. minutes s < minutes (hd batch) + 5"
      by simp
    have "\<forall>r\<in>set (with_grist_flow batch). snd r = 0"
      using grist_flow_no_weight [OF none] with_grist_flow_set by blast
    moreover have "\<forall>r\<in>set (with_grist_flow batch). minutes (fst r) < minutes (hd batch) + 5"
      using short with_grist_flow_set by blast
    ultimately show ?thesis using phase2_end_short by blast
  qed
  then obtain e where e: "phase2_end (with_grist_flow batch)
      (phase1_end (with_grist_flow batch) (Some (minutes (hd batch)))) = Inr e" by blast
  show ?thesis
    unfolding detect_phases_new_def phases_of_rows_def Let_def smin smax e sum.case
    by (auto dest!: less_six)
qed

theorem detect_phases_new_seven_contiguous_witness:
  "sparge_batch \<noteq> [] \<and> sorted (map minutes sparge_batch)
   \<and> (\<exists>s\<in>set sparge_batch. greast_case_weight s \<noteq> None)
   \<and> (\<exists>ps. detect_phases_new sparge_batch = Inr ps \<and> map fst ps = [1, 2, 3, 4, 5, 6, 7]
           \<and> (\<forall>i<6. finish (snd (ps ! i)) = start (snd (ps ! Suc i)))
           \<and> start (snd (ps ! 0)) = Some 0
           \<and> finish (snd (ps ! 6)) = Some 20)
   \<and> short_nan_weight_batch \<noteq> [] \<and> sorted (map minutes short_nan_weight_batch)
   \<and> \<not> (\<exists>s\<in>set short_nan_weight_batch. greast_case_weight s \<noteq> None)
   \<and> minutes (last short_nan_weight_batch) < minutes (hd short_nan_weight_batch) + 5
   \<and> (\<exists>ps. detect_phases_new short_nan_weight_batch = Inr ps
           \<and> map fst ps = [1, 2, 3, 4, 5, 6, 7]
           \<and> (\<forall>i<6. finish (snd (ps ! i)) = start (snd (ps ! Suc i)))
           \<and> start (snd (ps ! 0)) = Some 0
           \<and> finish (snd (ps ! 6)) = Some 3)"
proof -
  have h1: "sparge_batch \<noteq> []" by (simp add: sparge_batch_def)
  have h2: "sorted (map minutes sparge_batch)" by (simp add: sparge_batch_def mk_sample_def)
  have h3: "\<exists>s\<in>set sparge_batch. greast_case_weight s \<noteq> None"
    by (simp add: sparge_batch_def mk_sample_def)
  have v: "minutes (hd sparge_batch) = 0" "minutes (last sparge_batch) = 20"
    by (simp_all add: sparge_batch_def mk_sample_def)
  have k1: "short_nan_weight_batch \<noteq> []" by (simp add: short_nan_weight_batch_def)
  have k2: "sorted (map minutes short_nan_weight_batch)"
    by (simp add: short_nan_weight_batch_def mk_sample_def)
  have k3: "\<forall>s\<in>set short_nan_weight_batch.
      minutes s < minutes (hd short_nan_weight_batch) + 5"
    by (simp add: short_nan_weight_batch_def mk_sample_def)
  have w: "minutes (hd short_nan_weight_batch) = 0" "minutes (last short_nan_weight_batch) = 3"
    by (simp_all add: short_nan_weight_batch_def mk_sample_def)
  from detect_phases_new_seven_contiguous [OF h1 h2 disjI1 [OF h3]] v
  have a: "\<exists>ps. detect_phases_new sparge_batch = Inr ps \<and> map fst ps = [1, 2, 3, 4, 5, 6, 7]
           \<and> (\<forall>i<6. finish (snd (ps ! i)) = start (snd (ps ! Suc i)))
           \<and> start (snd (ps ! 0)) = Some 0
           \<and> finish (snd (ps ! 6)) = Some 20" by simp
  from detect_phases_new_seven_contiguous [OF k1 k2 disjI2 [OF k3]] w
  have b: "\<exists>ps. detect_phases_new short_nan_weight_batch = Inr ps
           \<and> map fst ps = [1, 2, 3, 4, 5, 6, 7]
           \<and> (\<forall>i<6. finish (snd (ps ! i)) = start (snd (ps ! Suc i)))
           \<and> start (snd (ps ! 0)) = Some 0
           \<and> finish (snd (ps ! 6)) = Some 3" by simp
  have k4: "\<not> (\<exists>s\<in>set short_nan_weight_batch. greast_case_weight s \<noteq> None)"
    "minutes (last short_nan_weight_batch) < minutes (hd short_nan_weight_batch) + 5"
    by (simp_all add: short_nan_weight_batch_def mk_sample_def)
  from h1 h2 h3 a k1 k2 k4 b show ?thesis by blast
qed

subsection \<open>Thermal flux\<close>

lemma length_heat_step: "length (heat_step data i col) = length col"
  by (simp add: heat_step_def)

lemma length_fold_heat: "length (fold (heat_step data) is col) = length col"
  by (induction "is" arbitrary: col) (simp_all add: length_heat_step)

lemma fold_heat_nth:
  "n \<le> length col \<Longrightarrow> j < length col \<Longrightarrow>
   fold (heat_step data) [Suc 0..<n] col ! j =
     (if Suc 0 \<le> j \<and> j < n then heat_Q data j else col ! j)"
proof (induction n)
  case 0
  then show ?case by simp
next
  case (Suc n)
  show ?case
  proof (cases "Suc 0 \<le> n")
    case False
    then show ?thesis by auto
  next
    case True
    then have "[Suc 0..<Suc n] = [Suc 0..<n] @ [n]" by simp
    then have "fold (heat_step data) [Suc 0..<Suc n] col
        = (fold (heat_step data) [Suc 0..<n] col)[n := heat_Q data n]"
      by (simp add: heat_step_def)
    then show ?thesis using Suc True
      by (auto simp: length_fold_heat nth_list_update)
  qed
qed

lemma length_calculate_heat_available:
  "length (calculate_heat_available data) = length data"
  by (simp add: calculate_heat_available_def length_fold_heat)

lemma calculate_heat_available_nth:
  assumes "i < length data"
  shows "calculate_heat_available data ! i = (if i = 0 then Some 0 else heat_Q data i)"
  using assms by (auto simp: calculate_heat_available_def fold_heat_nth)

subsection \<open>Accuracy of the rounding to float64\<close>

text \<open>
  \<open>exponent_of\<close> finds the binary exponent, and \<open>round_to_double\<close> moves a number of the
  normal range by at most half a unit in the last place, a relative error of at most
  \<open>2^(-53)\<close>.
\<close>

lemma pow2_powr: "pow2 e = 2 powr (real_of_int e)"
proof (cases "0 \<le> e")
  case True
  then show ?thesis by (simp add: pow2_def powr_realpow [symmetric])
next
  case False
  then have "real_of_int e = - real (nat (- e))" by simp
  then have "2 powr (real_of_int e) = 1 / 2 ^ nat (- e)"
    by (simp only: powr_minus powr_realpow zero_less_numeral inverse_eq_divide)
  with False show ?thesis by (simp add: pow2_def)
qed

lemma pow2_pos: "0 < pow2 e"
  by (simp add: pow2_powr)

lemma pow2_add1: "pow2 (e + 1) = 2 * pow2 e"
  by (simp add: pow2_powr powr_add)

lemma pow2_sub1: "pow2 (e - 1) = pow2 e / 2"
  using pow2_add1 [of "e - 1"] by simp

lemma pow2_mono: "a \<le> b \<Longrightarrow> pow2 a \<le> pow2 b"
  by (simp add: pow2_powr)

lemma exponent_of_bounds:
  "(1 \<le> x \<and> x < 2) \<or> (pow2 (- int n) \<le> x \<and> x < pow2 (int n))
   \<Longrightarrow> pow2 (exponent_of n x) \<le> x \<and> x < pow2 (exponent_of n x + 1)"
proof (induction n arbitrary: x)
  case 0
  then show ?case by (auto simp: pow2_def)
next
  case (Suc n)
  consider "2 \<le> x" | "x < 1" | "1 \<le> x" "x < 2" by linarith
  then show ?case
  proof cases
    case 1
    from Suc.prems 1 have "x < pow2 (int (Suc n))" by auto
    then have "x / 2 < pow2 (int n)" using pow2_add1 [of "int n"] by (simp add: add.commute)
    moreover have "pow2 (- int n) \<le> x / 2"
    proof -
      have "pow2 (- int n) \<le> pow2 0" by (rule pow2_mono) simp
      also have "\<dots> = 1" by (simp add: pow2_def)
      also have "\<dots> \<le> x / 2" using 1 by simp
      finally show ?thesis .
    qed
    ultimately have "pow2 (exponent_of n (x / 2)) \<le> x / 2
        \<and> x / 2 < pow2 (exponent_of n (x / 2) + 1)"
      using Suc.IH [of "x / 2"] by blast
    then show ?thesis using 1 pow2_add1 [of "exponent_of n (x / 2)"]
        pow2_add1 [of "exponent_of n (x / 2) + 1"] by simp
  next
    case 2
    from Suc.prems 2 have lo: "pow2 (- int (Suc n)) \<le> x" by auto
    have "pow2 (- int n) = 2 * pow2 (- int (Suc n))"
      using pow2_add1 [of "- int (Suc n)"] by simp
    with lo have lo2: "pow2 (- int n) \<le> x * 2" by simp
    have "(1 \<le> x * 2 \<and> x * 2 < 2) \<or> (pow2 (- int n) \<le> x * 2 \<and> x * 2 < pow2 (int n))"
    proof (cases "1 \<le> x * 2")
      case True
      with 2 show ?thesis by simp
    next
      case False
      have "1 = pow2 0" by (simp add: pow2_def)
      also have "\<dots> \<le> pow2 (int n)" by (rule pow2_mono) simp
      finally have "x * 2 < pow2 (int n)" using False by simp
      with lo2 show ?thesis by simp
    qed
    then have "pow2 (exponent_of n (x * 2)) \<le> x * 2
        \<and> x * 2 < pow2 (exponent_of n (x * 2) + 1)"
      by (rule Suc.IH)
    then show ?thesis using 2 pow2_sub1 [of "exponent_of n (x * 2)"]
        pow2_add1 [of "exponent_of n (x * 2)"] by simp
  next
    case 3
    then show ?thesis by (simp add: pow2_def)
  qed
qed

lemma round_half_even_near: "\<bar>of_int (round_half_even y) - y\<bar> \<le> 1 / 2"
proof -
  have "of_int \<lfloor>y\<rfloor> \<le> y" "y < of_int \<lfloor>y\<rfloor> + 1" by linarith+
  then show ?thesis by (auto simp: round_half_even_def Let_def)
qed

lemma round_to_double_near:
  assumes "x \<noteq> 0"
  shows "\<bar>round_to_double x - x\<bar> \<le> pow2 (max (exponent_of 1100 \<bar>x\<bar>) (- 1022) - 52) / 2"
proof -
  let ?ulp = "pow2 (max (exponent_of 1100 \<bar>x\<bar>) (- 1022) - 52)"
  have u: "0 < ?ulp" by (rule pow2_pos)
  have "round_to_double x - x = (of_int (round_half_even (x / ?ulp)) - x / ?ulp) * ?ulp"
    using assms u by (simp add: round_to_double_def Let_def algebra_simps)
  then have "\<bar>round_to_double x - x\<bar> = \<bar>of_int (round_half_even (x / ?ulp)) - x / ?ulp\<bar> * ?ulp"
    using u by (simp add: abs_mult)
  also have "\<dots> \<le> 1 / 2 * ?ulp"
    using round_half_even_near [of "x / ?ulp"] u by (intro mult_right_mono) simp_all
  finally show ?thesis by simp
qed

lemma round_to_double_relative:
  assumes "pow2 (- 1022) \<le> \<bar>x\<bar>" and "\<bar>x\<bar> < pow2 1024"
  shows "\<bar>round_to_double x - x\<bar> \<le> \<bar>x\<bar> / 2 ^ 53"
proof -
  let ?e = "exponent_of 1100 \<bar>x\<bar>"
  have x: "x \<noteq> 0" using assms(1) pow2_pos [of "- 1022"] by auto
  have "pow2 (- int 1100) \<le> pow2 (- 1022)" by (rule pow2_mono) simp
  moreover have "pow2 1024 \<le> pow2 (int 1100)" by (rule pow2_mono) simp
  ultimately have b: "pow2 ?e \<le> \<bar>x\<bar> \<and> \<bar>x\<bar> < pow2 (?e + 1)"
    using assms by (intro exponent_of_bounds) simp
  have "- 1022 \<le> ?e"
  proof (rule ccontr)
    assume "\<not> - 1022 \<le> ?e"
    then have "?e + 1 \<le> - 1022" by simp
    then have "pow2 (?e + 1) \<le> pow2 (- 1022)" by (rule pow2_mono)
    with b assms(1) show False by simp
  qed
  then have m: "max ?e (- 1022) = ?e" by simp
  have "pow2 (?e - 52) / 2 = pow2 ?e / 2 ^ 53"
    by (simp add: pow2_powr powr_diff powr_realpow [symmetric])
  also have "\<dots> \<le> \<bar>x\<bar> / 2 ^ 53" using b by (simp add: divide_right_mono)
  finally show ?thesis using round_to_double_near [OF x] unfolding m by simp
qed

subsection \<open>The heat available\<close>

lemma round_to_double_zero: "round_to_double 0 = 0"
  by (simp add: round_to_double_def)

text \<open>The rounding agrees with the float64 values that Python prints for 4.18 and 0.1.\<close>

lemma round_to_double_examples:
  "round_to_double 4.18 = 588282701325271 / 2 ^ 47"
  "round_to_double 0.1 = 3602879701896397 / 2 ^ 55"
  "round_to_double 300 = 300"
  "round_to_double 940.5 = 940.5"
  by code_simp+

lemma f64_simps:
  "f64_sub (Some x) (Some y) = Some (round_to_double (x - y))"
  "f64_mul (Some x) (Some y) = Some (round_to_double (x * y))"
  "f64_div (Some x) c = Some (round_to_double (x / c))"
  "f64_mul None b = None"
  "f64_mul a None = None"
  "f64_div None c = None"
  by (simp_all add: f64_sub_def f64_mul_def f64_div_def)

lemma scenario_value:
  "round_to_double (round_to_double (round_to_double (1 * round_to_double (300 / 60))
       * round_to_double 4.18) * round_to_double (65 - 20))
     = 940.5 - 1 / 2 ^ 43"
  by code_simp

text \<open>
  C6 as stated fails in its last part. In \<open>sparge_batch\<close> row 2 has water flow 300 and water
  temperature 20 and row 3 has mash temperature 65; the cell of row 3 is the float64
  \<open>940.5 - 2^(-43)\<close>, which Python prints as 940.4999999999999, and not 940.5: the product
  \<open>5.0 * 4.18\<close> is rounded before it is multiplied by 45.
\<close>

theorem heat_available_counterexample:
  "sparging_mashing_water_flow (sparge_batch ! 2) = Some 300
   \<and> mashing_sparging_water_temp (sparge_batch ! 2) = Some 20
   \<and> mashing_temp (sparge_batch ! 3) = Some 65
   \<and> calculate_heat_available sparge_batch ! 3 = Some (940.5 - 1 / 2 ^ 43)
   \<and> calculate_heat_available sparge_batch ! 3 \<noteq> Some 940.5"
  by code_simp

text \<open>
  C6, amended. The first cell of \<open>heat_available\<close> is 0. For a later row \<open>i\<close> with both
  temperatures present, the cell is \<open>(1.0 * (water_flow[i-1] / 60.0)) * 4.18 * (mash_temp[i]
  - water_temp[i-1])\<close> computed in float64, every operation rounded to the nearest float64;
  it is NaN when that flow reading is missing. With flow 300, water temperature 20 and
  mash temperature 65 it is \<open>940.5 - 2^(-43)\<close>, one unit in the last place below 940.5.
\<close>

theorem heat_available_formula:
  "(data \<noteq> [] \<longrightarrow> calculate_heat_available data ! 0 = Some 0)
   \<and> (\<forall>i t_mash t_water. 0 < i \<and> i < length data
         \<and> mashing_temp (data ! i) = Some t_mash
         \<and> mashing_sparging_water_temp (data ! (i - 1)) = Some t_water \<longrightarrow>
         calculate_heat_available data ! i =
           (case sparging_mashing_water_flow (data ! (i - 1)) of
              Some flow \<Rightarrow>
                Some (round_to_double (round_to_double
                        (round_to_double (1 * round_to_double (flow / 60)) * round_to_double 4.18)
                      * round_to_double (t_mash - t_water)))
            | None \<Rightarrow> None)
         \<and> (sparging_mashing_water_flow (data ! (i - 1)) = Some 300 \<and> t_water = 20
              \<and> t_mash = 65 \<longrightarrow>
              calculate_heat_available data ! i = Some (940.5 - 1 / 2 ^ 43)))"
proof (intro conjI allI impI)
  assume "data \<noteq> []"
  then show "calculate_heat_available data ! 0 = Some 0"
    by (simp add: calculate_heat_available_nth)
next
  fix i t_mash t_water
  assume a: "0 < i \<and> i < length data \<and> mashing_temp (data ! i) = Some t_mash
         \<and> mashing_sparging_water_temp (data ! (i - 1)) = Some t_water"
  then have q: "calculate_heat_available data ! i = heat_Q data i"
    by (simp add: calculate_heat_available_nth)
  from a show f: "calculate_heat_available data ! i =
           (case sparging_mashing_water_flow (data ! (i - 1)) of
              Some flow \<Rightarrow>
                Some (round_to_double (round_to_double
                        (round_to_double (1 * round_to_double (flow / 60)) * round_to_double 4.18)
                      * round_to_double (t_mash - t_water)))
            | None \<Rightarrow> None)"
    unfolding q by (simp add: heat_Q_def notna_def f64_simps split: option.split)
  assume s: "sparging_mashing_water_flow (data ! (i - 1)) = Some 300 \<and> t_water = 20 \<and> t_mash = 65"
  have "calculate_heat_available data ! i =
      Some (round_to_double (round_to_double
              (round_to_double (1 * round_to_double (300 / 60)) * round_to_double 4.18)
            * round_to_double (65 - 20)))"
    using f s by (simp only: option.case)
  then show "calculate_heat_available data ! i = Some (940.5 - 1 / 2 ^ 43)"
    by (simp only: scenario_value)
qed

theorem heat_available_formula_witness:
  "calculate_heat_available sparge_batch ! 0 = Some 0
   \<and> calculate_heat_available sparge_batch ! 3 = Some (940.5 - 1 / 2 ^ 43)"
proof -
  have l: "sparge_batch \<noteq> []" "(3::nat) < length sparge_batch"
    by (simp_all add: sparge_batch_def)
  have v: "mashing_temp (sparge_batch ! 3) = Some 65"
    "mashing_sparging_water_temp (sparge_batch ! (3 - 1)) = Some 20"
    "sparging_mashing_water_flow (sparge_batch ! (3 - 1)) = Some 300"
    by (simp_all add: sparge_batch_def mk_sample_def)
  note f = heat_available_formula [of sparge_batch]
  from f l have a: "calculate_heat_available sparge_batch ! 0 = Some 0" by blast
  have pre: "0 < (3::nat) \<and> 3 < length sparge_batch
      \<and> mashing_temp (sparge_batch ! 3) = Some 65
      \<and> mashing_sparging_water_temp (sparge_batch ! (3 - 1)) = Some 20"
    using l v by simp
  from f [THEN conjunct2, rule_format, OF pre, THEN conjunct2] v(3)
  have "calculate_heat_available sparge_batch ! 3 = Some (940.5 - 1 / 2 ^ 43)" by blast
  with a show ?thesis by simp
qed

text \<open>
  C7 as stated fails: with the water temperature of row 0 missing and the water flow of
  row 0 missing as well, the cell of row 1 is NaN, not 0.
\<close>

theorem heat_zero_fallback_counterexample:
  "mashing_sparging_water_temp (nan_flow_batch ! 0) = None
   \<and> calculate_heat_available nan_flow_batch ! 1 = None
   \<and> calculate_heat_available nan_flow_batch ! 1 \<noteq> Some 0"
  by (simp add: calculate_heat_available_def nan_flow_batch_def mk_sample_def heat_step_def
      heat_Q_def notna_def f64_simps f64_div_def)

text \<open>
  C7, amended. No row is dropped; where \<open>mash_temp[i]\<close> or \<open>water_temp[i-1]\<close> is missing,
  \<open>Q[i]\<close> is exactly 0 provided \<open>water_flow[i-1]\<close> is present, and NaN when that flow
  reading is missing too.
\<close>

theorem heat_zero_fallback:
  "length (calculate_heat_available data) = length data
   \<and> (\<forall>i. 0 < i \<and> i < length data
         \<and> (mashing_temp (data ! i) = None \<or> mashing_sparging_water_temp (data ! (i - 1)) = None)
        \<longrightarrow> calculate_heat_available data ! i =
           (case sparging_mashing_water_flow (data ! (i - 1)) of
              Some flow \<Rightarrow> Some 0 | None \<Rightarrow> None))"
proof (intro conjI allI impI)
  show "length (calculate_heat_available data) = length data"
    by (rule length_calculate_heat_available)
next
  fix i
  assume a: "0 < i \<and> i < length data
         \<and> (mashing_temp (data ! i) = None \<or> mashing_sparging_water_temp (data ! (i - 1)) = None)"
  then have q: "calculate_heat_available data ! i = heat_Q data i"
    by (simp add: calculate_heat_available_nth)
  from a show "calculate_heat_available data ! i =
           (case sparging_mashing_water_flow (data ! (i - 1)) of
              Some flow \<Rightarrow> Some 0 | None \<Rightarrow> None)"
    unfolding q
    by (auto simp: heat_Q_def notna_def f64_simps round_to_double_zero split: option.split)
qed

theorem heat_zero_fallback_witness:
  "length (calculate_heat_available sparge_batch) = 7
   \<and> calculate_heat_available sparge_batch ! 5 = Some 0"
proof -
  have l: "length sparge_batch = 7" by (simp add: sparge_batch_def)
  have v: "mashing_sparging_water_temp (sparge_batch ! (5 - 1)) = None"
    "sparging_mashing_water_flow (sparge_batch ! (5 - 1)) = Some 300"
    by (simp_all add: sparge_batch_def mk_sample_def)
  note f = heat_zero_fallback [of sparge_batch]
  from f [THEN conjunct2, rule_format, of 5] l v
  have "calculate_heat_available sparge_batch ! 5 = Some 0" by simp
  with f l show ?thesis by simp
qed

subsection \<open>Evaluations on the example batches\<close>

lemma detect_phases_new_sparge_batch:
  "detect_phases_new sparge_batch =
     Inr [(1, \<lparr>name = ''Water Pre-Fill'', start = Some 0, finish = Some 1\<rparr>),
          (2, \<lparr>name = ''Grist Addition'', start = Some 1, finish = Some 2\<rparr>),
          (3, \<lparr>name = ''Resting'', start = Some 2, finish = Some 3\<rparr>),
          (4, \<lparr>name = ''Sparge'', start = Some 3, finish = Some 7\<rparr>),
          (5, \<lparr>name = ''First Wort'', start = Some 7, finish = Some 7\<rparr>),
          (6, \<lparr>name = ''Second Sparge'', start = Some 7, finish = Some 9\<rparr>),
          (7, \<lparr>name = ''Grain Disposal'', start = Some 9, finish = Some 20\<rparr>)]"
  by code_simp

lemma detect_phases_sparge_batch:
  "detect_phases sparge_batch =
     Inr [(1, \<lparr>name = ''Water Pre-Fill'', start = Some 0, finish = Some 5\<rparr>),
          (2, \<lparr>name = ''Grist Addition'', start = Some 5, finish = Some 1\<rparr>),
          (3, \<lparr>name = ''Resting'', start = Some 1, finish = Some 46\<rparr>),
          (4, \<lparr>name = ''Sparge'', start = Some 46, finish = Some 66\<rparr>),
          (5, \<lparr>name = ''First Wort'', start = Some 66, finish = Some 20\<rparr>),
          (6, \<lparr>name = ''Second Sparge'', start = Some 20, finish = Some 20\<rparr>),
          (7, \<lparr>name = ''Grain Disposal'', start = Some 20, finish = Some 20\<rparr>)]"
  by code_simp


subsection \<open>The two threshold variants\<close>

text \<open>
  C9. The two variants disagree on a batch: a grist flow of 5 kg passes the threshold 0.5
  of \<open>detect_phases_new\<close> and not the threshold 10 of \<open>detect_phases\<close>, so phase 1 ends at
  minute 1 in one and at minute 5 in the other, and the later boundaries differ as well.
\<close>

theorem threshold_variants_differ:
  "\<exists>batch ps ps'. detect_phases batch = Inr ps \<and> detect_phases_new batch = Inr ps'
      \<and> map (\<lambda>p. finish (snd p)) ps \<noteq> map (\<lambda>p. finish (snd p)) ps'
      \<and> detect_phases batch \<noteq> detect_phases_new batch"
proof (intro exI conjI)
  show "detect_phases sparge_batch = Inr [(1, \<lparr>name = ''Water Pre-Fill'', start = Some 0, finish = Some 5\<rparr>),
          (2, \<lparr>name = ''Grist Addition'', start = Some 5, finish = Some 1\<rparr>),
          (3, \<lparr>name = ''Resting'', start = Some 1, finish = Some 46\<rparr>),
          (4, \<lparr>name = ''Sparge'', start = Some 46, finish = Some 66\<rparr>),
          (5, \<lparr>name = ''First Wort'', start = Some 66, finish = Some 20\<rparr>),
          (6, \<lparr>name = ''Second Sparge'', start = Some 20, finish = Some 20\<rparr>),
          (7, \<lparr>name = ''Grain Disposal'', start = Some 20, finish = Some 20\<rparr>)]"
    by (rule detect_phases_sparge_batch)
  show "detect_phases_new sparge_batch = Inr [(1, \<lparr>name = ''Water Pre-Fill'', start = Some 0, finish = Some 1\<rparr>),
          (2, \<lparr>name = ''Grist Addition'', start = Some 1, finish = Some 2\<rparr>),
          (3, \<lparr>name = ''Resting'', start = Some 2, finish = Some 3\<rparr>),
          (4, \<lparr>name = ''Sparge'', start = Some 3, finish = Some 7\<rparr>),
          (5, \<lparr>name = ''First Wort'', start = Some 7, finish = Some 7\<rparr>),
          (6, \<lparr>name = ''Second Sparge'', start = Some 7, finish = Some 9\<rparr>),
          (7, \<lparr>name = ''Grain Disposal'', start = Some 9, finish = Some 20\<rparr>)]"
    by (rule detect_phases_new_sparge_batch)
  show "detect_phases sparge_batch \<noteq> detect_phases_new sparge_batch"
    by (simp add: detect_phases_sparge_batch detect_phases_new_sparge_batch)
qed simp

subsection \<open>Fallback windows and the batch end\<close>

text \<open>
  Without any high-flow sample the phases 3 to 6 end at their fixed window, capped at the
  last elapsed time of the batch.
\<close>

lemma py_min_Some: "py_min (Some a) (Some pe) = Some (min a pe)"
  by (simp add: py_min_def min_def)

lemma capped_fallbacks:
  assumes "\<forall>s\<in>set b. \<not> fless (Some 200) (sparging_mashing_water_flow s)"
  shows "phase3_end b (Some t) (Some pe) = Some (min (t + 60) pe)"
    and "phase4_end b (Some t) (Some pe) = Some (min (t + 15) pe)"
    and "phase5_end b (Some t) (Some pe) = Some (min (t + 30) pe)"
    and "phase6_end b (Some t) (Some pe) = Some (min (t + 20) pe)"
proof -
  have none: "\<And>xs. set xs \<subseteq> set b \<Longrightarrow>
      filter (\<lambda>s. fless (Some 200) (sparging_mashing_water_flow s)) xs = []"
    using assms by (auto simp: filter_empty_conv)
  show "phase3_end b (Some t) (Some pe) = Some (min (t + 60) pe)"
    unfolding phase3_end_def Let_def by (simp add: none py_min_Some del: filter_filter)
  show "phase4_end b (Some t) (Some pe) = Some (min (t + 15) pe)"
    unfolding phase4_end_def Let_def by (simp add: none py_min_Some del: filter_filter)
  show "phase5_end b (Some t) (Some pe) = Some (min (t + 30) pe)"
    unfolding phase5_end_def Let_def by (simp add: none py_min_Some del: filter_filter)
  show "phase6_end b (Some t) (Some pe) = Some (min (t + 20) pe)"
    unfolding phase6_end_def Let_def by (simp add: none py_min_Some del: filter_filter)
qed

text \<open>
  C3, evaluated. On a batch of one sample at minute 0 \<open>detect_phases_new\<close> finds no grist
  movement: the fallback of phase 1 gives \<open>process_start + 5 = 5\<close> and the fallback of
  phase 2 gives \<open>p2_start + 10 = 15\<close>, both beyond the last elapsed time 0, while the
  fallbacks of the phases 3 to 6 are capped with \<open>min(..., process_end)\<close>. On the idle
  batch, which ends at minute 10, the older \<open>detect_phases\<close> ends phase 3 at
  \<open>p3_start + 45 = 45\<close> and phase 4 at \<open>p4_start + 20 = 65\<close>.
\<close>

theorem fallback_windows_uncapped:
  "series_max (map minutes single_batch) = Some 0
   \<and> detect_phases_new single_batch =
     Inr [(1, \<lparr>name = ''Water Pre-Fill'', start = Some 0, finish = Some 5\<rparr>),
          (2, \<lparr>name = ''Grist Addition'', start = Some 5, finish = Some 15\<rparr>),
          (3, \<lparr>name = ''Resting'', start = Some 15, finish = Some 0\<rparr>),
          (4, \<lparr>name = ''Sparge'', start = Some 0, finish = Some 0\<rparr>),
          (5, \<lparr>name = ''First Wort'', start = Some 0, finish = Some 0\<rparr>),
          (6, \<lparr>name = ''Second Sparge'', start = Some 0, finish = Some 0\<rparr>),
          (7, \<lparr>name = ''Grain Disposal'', start = Some 0, finish = Some 0\<rparr>)]
   \<and> series_max (map minutes idle_batch) = Some 10
   \<and> detect_phases idle_batch =
     Inr [(1, \<lparr>name = ''Water Pre-Fill'', start = Some 0, finish = Some 5\<rparr>),
          (2, \<lparr>name = ''Grist Addition'', start = Some 5, finish = Some 0\<rparr>),
          (3, \<lparr>name = ''Resting'', start = Some 0, finish = Some 45\<rparr>),
          (4, \<lparr>name = ''Sparge'', start = Some 45, finish = Some 65\<rparr>),
          (5, \<lparr>name = ''First Wort'', start = Some 65, finish = Some 10\<rparr>),
          (6, \<lparr>name = ''Second Sparge'', start = Some 10, finish = Some 10\<rparr>),
          (7, \<lparr>name = ''Grain Disposal'', start = Some 10, finish = Some 10\<rparr>)]"
  by code_simp

subsection \<open>Empty batches and errors\<close>

text \<open>
  C4 as stated fails: on the batch without samples (a frame with its columns and no row)
  \<open>detect_phases_new\<close> raises nothing. Every filter is empty, every boundary is NaN, and
  the seven phases are returned.
\<close>

theorem empty_batch_counterexample:
  "detect_phases_new [] =
     Inr [(1, \<lparr>name = ''Water Pre-Fill'', start = None, finish = None\<rparr>),
          (2, \<lparr>name = ''Grist Addition'', start = None, finish = None\<rparr>),
          (3, \<lparr>name = ''Resting'', start = None, finish = None\<rparr>),
          (4, \<lparr>name = ''Sparge'', start = None, finish = None\<rparr>),
          (5, \<lparr>name = ''First Wort'', start = None, finish = None\<rparr>),
          (6, \<lparr>name = ''Second Sparge'', start = None, finish = None\<rparr>),
          (7, \<lparr>name = ''Grain Disposal'', start = None, finish = None\<rparr>)]"
  by code_simp

text \<open>
  C4, amended. \<open>detect_phases_new\<close> has no error for the empty batch: there it returns
  seven phases whose boundaries are all NaN. On every non-empty batch that carries at
  least one weight reading it raises nothing and returns the seven phases 1 to 7,
  however sparse the signals are.
\<close>

theorem detect_phases_new_never_raises:
  "(\<exists>ps. detect_phases_new [] = Inr ps \<and> map fst ps = [1, 2, 3, 4, 5, 6, 7]
         \<and> map (\<lambda>p. (start (snd p), finish (snd p))) ps = replicate 7 (None, None))
   \<and> (batch \<noteq> [] \<and> (\<exists>s\<in>set batch. greast_case_weight s \<noteq> None) \<longrightarrow>
        (\<exists>ps. detect_phases_new batch = Inr ps \<and> map fst ps = [1, 2, 3, 4, 5, 6, 7]))"
proof (intro conjI impI)
  have "detect_phases_new [] =
     Inr [(1, \<lparr>name = ''Water Pre-Fill'', start = None, finish = None\<rparr>),
          (2, \<lparr>name = ''Grist Addition'', start = None, finish = None\<rparr>),
          (3, \<lparr>name = ''Resting'', start = None, finish = None\<rparr>),
          (4, \<lparr>name = ''Sparge'', start = None, finish = None\<rparr>),
          (5, \<lparr>name = ''First Wort'', start = None, finish = None\<rparr>),
          (6, \<lparr>name = ''Second Sparge'', start = None, finish = None\<rparr>),
          (7, \<lparr>name = ''Grain Disposal'', start = None, finish = None\<rparr>)]"
    by code_simp
  then show "\<exists>ps. detect_phases_new [] = Inr ps \<and> map fst ps = [1, 2, 3, 4, 5, 6, 7]
         \<and> map (\<lambda>p. (start (snd p), finish (snd p))) ps = replicate 7 (None, None)"
    by (simp add: numeral_eq_Suc)
next
  assume a: "batch \<noteq> [] \<and> (\<exists>s\<in>set batch. greast_case_weight s \<noteq> None)"
  then obtain e where e: "phase2_end (with_grist_flow batch)
      (phase1_end (with_grist_flow batch) (series_min (map minutes batch))) = Inr e"
    using phase2_end_ok [OF with_grist_flow_weight] by blast
  show "\<exists>ps. detect_phases_new batch = Inr ps \<and> map fst ps = [1, 2, 3, 4, 5, 6, 7]"
    unfolding detect_phases_new_def phases_of_rows_def Let_def e sum.case by simp
qed

theorem detect_phases_new_never_raises_witness:
  "idle_batch \<noteq> [] \<and> (\<exists>s\<in>set idle_batch. greast_case_weight s \<noteq> None)
   \<and> (\<exists>ps. detect_phases_new idle_batch = Inr ps \<and> map fst ps = [1, 2, 3, 4, 5, 6, 7])"
proof -
  have h: "idle_batch \<noteq> [] \<and> (\<exists>s\<in>set idle_batch. greast_case_weight s \<noteq> None)"
    by (simp add: idle_batch_def mk_sample_def)
  with detect_phases_new_never_raises [of idle_batch] show ?thesis by blast
qed

subsection \<open>Phase lengths\<close>


lemma last_filter: "filter P xs \<noteq> [] \<Longrightarrow> P (last (filter P xs)) \<and> last (filter P xs) \<in> set xs"
  using last_in_set [of "filter P xs"] by auto





























subsection \<open>Which samples a forward scan reads\<close>

lemma filter_after_last_high:
  assumes "fle p (Some lh)"
  shows "filter (\<lambda>s. minutes s > lh) b
       = filter (\<lambda>s. minutes s > lh) (filter (\<lambda>s. fle p (Some (minutes s))) b)"
proof -
  from assms obtain x where "p = Some x" "x \<le> lh" by (cases p) auto
  then show ?thesis by (auto intro: filter_cong)
qed

lemma phase6_end_frame:
  assumes eq: "filter (\<lambda>s. fle p (Some (minutes s))) b = filter (\<lambda>s. fle p (Some (minutes s))) b'"
  shows "phase6_end b p pe = phase6_end b' p pe"
proof -
  let ?P = "\<lambda>s. fless (Some 200) (sparging_mashing_water_flow s)"
  let ?high = "filter ?P (filter (\<lambda>s. fle p (Some (minutes s))) b)"
  show ?thesis
  proof (cases "?high = []")
    case True
    then show ?thesis unfolding phase6_end_def Let_def eq [symmetric] by simp
  next
    case False
    from last_filter [OF False] have "fle p (Some (minutes (last ?high)))" by auto
    from filter_after_last_high [OF this, of b] filter_after_last_high [OF this, of b']
    have "filter (\<lambda>s. minutes s > minutes (last ?high)) b
        = filter (\<lambda>s. minutes s > minutes (last ?high)) b'"
      by (simp only: eq)
    then show ?thesis unfolding phase6_end_def Let_def eq [symmetric] by simp
  qed
qed

lemma phase2_end_frame:
  assumes eq: "filter (\<lambda>r. fle p (Some (minutes (fst r)))) rows
             = filter (\<lambda>r. fle p (Some (minutes (fst r)))) rows'"
    and act: "\<exists>r\<in>set rows. fle p (Some (minutes (fst r))) \<and> snd r > 0.5"
  shows "phase2_end rows p = phase2_end rows' p"
proof -
  let ?data = "filter (\<lambda>r. fle p (Some (minutes (fst r)))) rows"
  from act have "filter (\<lambda>r. snd r > 0.5) ?data \<noteq> []"
    by (auto simp: filter_empty_conv)
  moreover from this have "?data \<noteq> []" by (metis filter.simps(1))
  ultimately show ?thesis
    unfolding phase2_end_def Let_def eq [symmetric] by (simp only: if_True if_False simp_thms)
qed

text \<open>
  C8 as stated fails. In \<open>gap_batch\<close> phase 3 ends at minute 10, the time of the first
  high-flow sample, and the scan for the end of phase 4 reads that very sample
  (\<open>minutes >= p4_start\<close>): with it the gap before minute 14 is found and phase 4 ends at
  13, and once its flow is set to 0 the same scan from the same boundary ends at 20.
\<close>

theorem forward_scan_counterexample:
  "detect_phases_new gap_batch =
     Inr [(1, \<lparr>name = ''Water Pre-Fill'', start = Some 0, finish = Some 1\<rparr>),
          (2, \<lparr>name = ''Grist Addition'', start = Some 1, finish = Some 2\<rparr>),
          (3, \<lparr>name = ''Resting'', start = Some 2, finish = Some 10\<rparr>),
          (4, \<lparr>name = ''Sparge'', start = Some 10, finish = Some 13\<rparr>),
          (5, \<lparr>name = ''First Wort'', start = Some 13, finish = Some 13\<rparr>),
          (6, \<lparr>name = ''Second Sparge'', start = Some 13, finish = Some 20\<rparr>),
          (7, \<lparr>name = ''Grain Disposal'', start = Some 20, finish = Some 20\<rparr>)]
   \<and> minutes (gap_batch ! 2) = 10
   \<and> gap_batch_alt = gap_batch[2 := (gap_batch ! 2)\<lparr>sparging_mashing_water_flow := Some 0\<rparr>]
   \<and> phase4_end gap_batch (Some 10) (Some 20) = Some 13
   \<and> phase4_end gap_batch_alt (Some 10) (Some 20) = Some 20"
  by code_simp

text \<open>
  C8, amended. The scans for the ends of the phases 3 and 5 read only the samples strictly
  after the previous boundary; the scans for the ends of the phases 4 and 6 read only
  the samples at or after it; and so does the scan for the end of phase 2 whenever a
  sample with grist flow above 0.5 lies at or after the boundary. Two batches that agree
  on those samples give the same boundary.
\<close>

theorem forward_scan_frames:
  "(filter (\<lambda>s. fless p (Some (minutes s))) b = filter (\<lambda>s. fless p (Some (minutes s))) b' \<longrightarrow>
      phase3_end b p pe = phase3_end b' p pe \<and> phase5_end b p pe = phase5_end b' p pe)
   \<and> (filter (\<lambda>s. fle q (Some (minutes s))) c = filter (\<lambda>s. fle q (Some (minutes s))) c' \<longrightarrow>
      phase4_end c q pe = phase4_end c' q pe \<and> phase6_end c q pe = phase6_end c' q pe)
   \<and> (filter (\<lambda>r. fle t (Some (minutes (fst r)))) rows
         = filter (\<lambda>r. fle t (Some (minutes (fst r)))) rows'
       \<and> (\<exists>r\<in>set rows. fle t (Some (minutes (fst r))) \<and> snd r > 0.5) \<longrightarrow>
      phase2_end rows t = phase2_end rows' t)"
proof (intro conjI impI)
  assume eq: "filter (\<lambda>s. fless p (Some (minutes s))) b = filter (\<lambda>s. fless p (Some (minutes s))) b'"
  show "phase3_end b p pe = phase3_end b' p pe"
    unfolding phase3_end_def Let_def eq by (rule refl)
  show "phase5_end b p pe = phase5_end b' p pe"
    unfolding phase5_end_def Let_def eq by (rule refl)
next
  assume eq: "filter (\<lambda>s. fle q (Some (minutes s))) c = filter (\<lambda>s. fle q (Some (minutes s))) c'"
  show "phase4_end c q pe = phase4_end c' q pe"
    unfolding phase4_end_def Let_def eq by (rule refl)
  show "phase6_end c q pe = phase6_end c' q pe"
    using eq by (rule phase6_end_frame)
next
  assume "filter (\<lambda>r. fle t (Some (minutes (fst r)))) rows
         = filter (\<lambda>r. fle t (Some (minutes (fst r)))) rows'
       \<and> (\<exists>r\<in>set rows. fle t (Some (minutes (fst r))) \<and> snd r > 0.5)"
  then show "phase2_end rows t = phase2_end rows' t"
    using phase2_end_frame by blast
qed

theorem forward_scan_frames_witness:
  "filter (\<lambda>s. fless (Some 10) (Some (minutes s))) gap_batch
     = filter (\<lambda>s. fless (Some 10) (Some (minutes s))) gap_batch_alt
   \<and> phase3_end gap_batch (Some 10) (Some 20) = phase3_end gap_batch_alt (Some 10) (Some 20)
   \<and> phase5_end gap_batch (Some 10) (Some 20) = phase5_end gap_batch_alt (Some 10) (Some 20)
   \<and> filter (\<lambda>s. fle (Some 12) (Some (minutes s))) gap_batch
     = filter (\<lambda>s. fle (Some 12) (Some (minutes s))) gap_batch_alt
   \<and> phase4_end gap_batch (Some 12) (Some 20) = phase4_end gap_batch_alt (Some 12) (Some 20)
   \<and> phase6_end gap_batch (Some 12) (Some 20) = phase6_end gap_batch_alt (Some 12) (Some 20)
   \<and> filter (\<lambda>r. fle (Some 1) (Some (minutes (fst r)))) (zip gap_batch [0, 5, 0, 0, 0 :: real])
     = filter (\<lambda>r. fle (Some 1) (Some (minutes (fst r)))) (zip gap_batch [7, 5, 0, 0, 0 :: real])
   \<and> (\<exists>r\<in>set (zip gap_batch [0, 5, 0, 0, 0 :: real]). fle (Some 1) (Some (minutes (fst r))) \<and> snd r > 0.5)
   \<and> phase2_end (zip gap_batch [0, 5, 0, 0, 0 :: real]) (Some 1)
     = phase2_end (zip gap_batch [7, 5, 0, 0, 0 :: real]) (Some 1)"
proof -
  have h1: "filter (\<lambda>s. fless (Some 10) (Some (minutes s))) gap_batch
     = filter (\<lambda>s. fless (Some 10) (Some (minutes s))) gap_batch_alt"
    by code_simp
  have h2: "filter (\<lambda>s. fle (Some 12) (Some (minutes s))) gap_batch
     = filter (\<lambda>s. fle (Some 12) (Some (minutes s))) gap_batch_alt"
    by code_simp
  have h3: "filter (\<lambda>r. fle (Some 1) (Some (minutes (fst r)))) (zip gap_batch [0, 5, 0, 0, 0 :: real])
     = filter (\<lambda>r. fle (Some 1) (Some (minutes (fst r)))) (zip gap_batch [7, 5, 0, 0, 0 :: real])"
    by code_simp
  have h4: "\<exists>r\<in>set (zip gap_batch [0, 5, 0, 0, 0 :: real]). fle (Some 1) (Some (minutes (fst r))) \<and> snd r > 0.5"
    by (simp add: gap_batch_def mk_sample_def)
  from forward_scan_frames [of "Some 10" gap_batch gap_batch_alt "Some 20" "Some 12" gap_batch
      gap_batch_alt "Some 1" "zip gap_batch [0, 5, 0, 0, 0 :: real]" "zip gap_batch [7, 5, 0, 0, 0 :: real]"]
    h1 h2 h3 h4
  show ?thesis by blast
qed

subsection \<open>The input frame is left unchanged\<close>

lemma phase4_gap_store_take: "n \<le> length h \<Longrightarrow> take n (phase4_gap_store rows p h) = take n h"
  by (simp add: phase4_gap_store_def new_frame_def Let_def)

lemma detect_phases_new_st_result:
  "fst (detect_phases_new_st r h) = detect_phases_new (samples (h ! r))"
  by (simp add: detect_phases_new_st_def detect_phases_new_def df_copy_def new_frame_def
      Let_def with_grist_flow_def grist_flow_def)

lemma detect_phases_new_st_store:
  "take (length h) (snd (detect_phases_new_st r h)) = h"
  by (simp add: detect_phases_new_st_def df_copy_def new_frame_def Let_def
      phase4_gap_store_take split: sum.split)

lemma fold_heat_store_step:
  "data < length h \<Longrightarrow> heat_available_column (h ! data) = Some col \<Longrightarrow>
   fold (heat_store_step data) ns h =
     h[data := (h ! data)\<lparr>heat_available_column :=
                  Some (fold (heat_step (samples (h ! data))) ns col)\<rparr>]"
proof (induction ns arbitrary: h col)
  case Nil
  have "(h ! data)\<lparr>heat_available_column := heat_available_column (h ! data)\<rparr> = h ! data"
    by simp
  with Nil have "(h ! data)\<lparr>heat_available_column := Some col\<rparr> = h ! data" by simp
  then show ?case by simp
next
  case (Cons n ns)
  let ?h = "heat_store_step data n h"
  let ?col = "heat_step (samples (h ! data)) n col"
  have step: "?h = h[data := (h ! data)\<lparr>heat_available_column := Some ?col\<rparr>]"
    using Cons.prems by (simp add: heat_store_step_def)
  have len: "data < length ?h" using Cons.prems by (simp add: step)
  have col: "heat_available_column (?h ! data) = Some ?col"
    using Cons.prems by (simp add: step)
  have smp: "samples (?h ! data) = samples (h ! data)"
    using Cons.prems by (simp add: step)
  have "fold (heat_store_step data) (n # ns) h = fold (heat_store_step data) ns ?h" by simp
  also have "\<dots> = ?h[data := (?h ! data)\<lparr>heat_available_column :=
          Some (fold (heat_step (samples (?h ! data))) ns ?col)\<rparr>]"
    using len col by (rule Cons.IH)
  also have "\<dots> = h[data := (h ! data)\<lparr>heat_available_column :=
          Some (fold (heat_step (samples (h ! data))) (n # ns) col)\<rparr>]"
    unfolding smp using Cons.prems by (simp add: step)
  finally show ?case .
qed

lemma calculate_heat_available_st_eq:
  "calculate_heat_available_st r h =
     (length h, h @ [(h ! r)\<lparr>heat_available_column :=
                        Some (calculate_heat_available (samples (h ! r)))\<rparr>])"
proof -
  let ?f = "(h ! r)\<lparr>heat_available_column :=
              Some (replicate (length (samples (h ! r))) (Some 0))\<rparr>"
  have "fold (heat_store_step (length h)) [1..<length (samples (h ! r))] (h @ [?f])
      = (h @ [?f])[length h := ((h @ [?f]) ! length h)\<lparr>heat_available_column :=
           Some (fold (heat_step (samples ((h @ [?f]) ! length h))) [1..<length (samples (h ! r))]
                  (replicate (length (samples (h ! r))) (Some 0)))\<rparr>]"
    by (rule fold_heat_store_step) simp_all
  then show ?thesis
    by (simp add: calculate_heat_available_st_def df_copy_def new_frame_def Let_def
        calculate_heat_available_def)
qed

text \<open>
  C10. A call of \<open>detect_phases_new\<close> or of \<open>calculate_heat_available\<close> leaves every frame
  that existed before the call as it was, the argument included: the writes go to the
  copy made at the start. The results are those of the functions of the rows alone, so
  a second call on the store left by the first returns the same phases and the same
  \<open>heat_available\<close> column, and the returned frame has the rows of the argument.
\<close>

theorem calls_leave_input_unchanged:
  assumes "r < length h"
  shows "take (length h) (snd (detect_phases_new_st r h)) = h
     \<and> snd (detect_phases_new_st r h) ! r = h ! r
     \<and> fst (detect_phases_new_st r h) = detect_phases_new (samples (h ! r))
     \<and> fst (detect_phases_new_st r (snd (detect_phases_new_st r h)))
         = fst (detect_phases_new_st r h)
     \<and> take (length h) (snd (calculate_heat_available_st r h)) = h
     \<and> snd (calculate_heat_available_st r h) ! r = h ! r
     \<and> samples (snd (calculate_heat_available_st r h) ! fst (calculate_heat_available_st r h))
         = samples (h ! r)
     \<and> heat_available_column
          (snd (calculate_heat_available_st r h) ! fst (calculate_heat_available_st r h))
         = Some (calculate_heat_available (samples (h ! r)))
     \<and> heat_available_column
          (snd (calculate_heat_available_st r (snd (calculate_heat_available_st r h)))
             ! fst (calculate_heat_available_st r (snd (calculate_heat_available_st r h))))
         = Some (calculate_heat_available (samples (h ! r)))"
proof -
  let ?h' = "snd (detect_phases_new_st r h)"
  have t: "take (length h) ?h' = h" by (rule detect_phases_new_st_store)
  have "?h' ! r = take (length h) ?h' ! r" using assms by simp
  then have n: "?h' ! r = h ! r" by (simp only: t)
  have again: "fst (detect_phases_new_st r ?h') = fst (detect_phases_new_st r h)"
    by (simp only: detect_phases_new_st_result n)
  show ?thesis
    using assms t n again
    by (simp add: detect_phases_new_st_result calculate_heat_available_st_eq nth_append)
qed

theorem calls_leave_input_unchanged_witness:
  "(0::nat) < length sparge_store
   \<and> snd (detect_phases_new_st 0 sparge_store) ! 0 = sparge_store ! 0
   \<and> fst (detect_phases_new_st 0 sparge_store) = detect_phases_new sparge_batch
   \<and> snd (calculate_heat_available_st 0 sparge_store) ! 0 = sparge_store ! 0
   \<and> heat_available_column
        (snd (calculate_heat_available_st 0 sparge_store)
           ! fst (calculate_heat_available_st 0 sparge_store))
       = Some (calculate_heat_available sparge_batch)"
proof -
  have h: "(0::nat) < length sparge_store" by (simp add: sparge_store_def)
  have s: "samples (sparge_store ! 0) = sparge_batch" by (simp add: sparge_store_def)
  from calls_leave_input_unchanged [OF h] h s show ?thesis by simp
qed

end
